theory Spec2Isabelle
  imports Complex_Main "HOL-Library.Sublist"
begin

section \<open>Indicator library (indicators.py)\<close>

text \<open>
  A pandas Series of prices is a list of reals; a value that pandas holds as NaN is
  \<open>None\<close> in a \<open>real option list\<close>. Arithmetic is exact (the rounding of doubles is
  not modelled). The argument \<open>data\<close> may be Python's \<open>None\<close>, hence \<open>real list option\<close>;
  \<open>window\<close> is a Python int.
\<close>

definition mean :: "real list \<Rightarrow> real" where
  "mean xs = sum_list xs / real (length xs)"

text \<open>The trailing window ending at position \<open>i\<close>: at most \<open>w\<close> points, fewer at the start.\<close>

definition window_at :: "nat \<Rightarrow> nat \<Rightarrow> real list \<Rightarrow> real list" where
  "window_at w i xs = drop (Suc i - w) (take (Suc i) xs)"

definition rolling_mean :: "nat \<Rightarrow> real list \<Rightarrow> real list" where
  "rolling_mean w xs = map (\<lambda>i. mean (window_at w i xs)) [0..<length xs]"

text \<open>
  \<open>data.rolling(window=window, min_periods=1).mean()\<close>: pandas raises ValueError when
  \<open>window < 1\<close> (\<open>min_periods\<close> must not exceed the window), which is \<open>None\<close> here.
\<close>

definition rolling :: "int \<Rightarrow> real list \<Rightarrow> real list option" where
  "rolling window xs = (if window < 1 then None else Some (rolling_mean (nat window) xs))"

text \<open>\<open>pd.Series(index=data.index)\<close>: as long as the data, every value NaN.\<close>

definition nan_series :: "real list \<Rightarrow> real option list" where
  "nan_series xs = replicate (length xs) None"

definition calculate_sma :: "real list option \<Rightarrow> int \<Rightarrow> real option list" where
  "calculate_sma data window =
     (case data of
        None \<Rightarrow> []
      | Some xs \<Rightarrow>
          if int (length xs) < window then nan_series xs
          else (case rolling window xs of
                  None \<Rightarrow> nan_series xs
                | Some ms \<Rightarrow> map Some ms))"

text \<open>\<open>data.diff()\<close>: NaN at the first position, then the difference to the predecessor.\<close>

definition diff :: "real list \<Rightarrow> real option list" where
  "diff xs = (case xs of [] \<Rightarrow> [] | x # rest \<Rightarrow> None # map2 (\<lambda>a b. Some (b - a)) xs rest)"

text \<open>\<open>delta.where(cond, 0)\<close>: a comparison with NaN is false, so NaN becomes 0.\<close>

definition where_or_zero :: "(real \<Rightarrow> bool) \<Rightarrow> real option list \<Rightarrow> real list" where
  "where_or_zero c ds = map (\<lambda>d. case d of None \<Rightarrow> 0 | Some v \<Rightarrow> if c v then v else 0) ds"

definition avg_gain :: "int \<Rightarrow> real list \<Rightarrow> real list option" where
  "avg_gain window xs = rolling window (where_or_zero (\<lambda>v. 0 < v) (diff xs))"

definition avg_loss :: "int \<Rightarrow> real list \<Rightarrow> real list option" where
  "avg_loss window xs = rolling window (map uminus (where_or_zero (\<lambda>v. v < 0) (diff xs)))"

text \<open>\<open>loss.replace(0, np.nan)\<close> and the division \<open>gain / ...\<close>, NaN where the divisor is NaN.\<close>

definition replace_zero :: "real list \<Rightarrow> real option list" where
  "replace_zero ls = map (\<lambda>l. if l = 0 then None else Some l) ls"

definition series_div :: "real list \<Rightarrow> real option list \<Rightarrow> real option list" where
  "series_div gs ls = map2 (\<lambda>g l. case l of None \<Rightarrow> None | Some d \<Rightarrow> Some (g / d)) gs ls"

definition fillna :: "real \<Rightarrow> real option list \<Rightarrow> real list" where
  "fillna v xs = map (\<lambda>x. case x of None \<Rightarrow> v | Some y \<Rightarrow> y) xs"

definition relative_strength :: "int \<Rightarrow> real list \<Rightarrow> real list option" where
  "relative_strength window xs =
     (case avg_gain window xs of
        None \<Rightarrow> None
      | Some gain \<Rightarrow>
          (case avg_loss window xs of
             None \<Rightarrow> None
           | Some loss \<Rightarrow> Some (fillna 0 (series_div gain (replace_zero loss)))))"

definition calculate_rsi :: "real list option \<Rightarrow> int \<Rightarrow> real list" where
  "calculate_rsi data window =
     (case data of
        None \<Rightarrow> []
      | Some xs \<Rightarrow>
          if int (length xs) < window + 1 then replicate (length xs) 50
          else (case relative_strength window xs of
                  None \<Rightarrow> replicate (length xs) 50
                | Some rs \<Rightarrow> fillna 50 (map (\<lambda>r. Some (100 - 100 / (1 + r))) rs)))"

section \<open>Feature transformer (data_processor.py)\<close>

subsection \<open>Python values\<close>

text \<open>
  A Python float is a finite value, an infinity or NaN. Finite values are reals: overflow
  to an infinity is modelled (\<open>fround\<close>), the rounding of the mantissa and the sign of
  zero are not.
\<close>

datatype pyfloat = Fin real | PInf | NInf | NaN

definition dbl_max :: real where
  "dbl_max = 2 ^ 1024 - 2 ^ 971"

definition fround :: "real \<Rightarrow> pyfloat" where
  "fround r = (if dbl_max < r then PInf else if r < - dbl_max then NInf else Fin r)"

datatype pyerror =
  AttributeError | TypeError | ValueError | OverflowError | ZeroDivisionError | KeyError

fun fabs :: "pyfloat \<Rightarrow> pyfloat" where
  "fabs (Fin a) = Fin \<bar>a\<bar>"
| "fabs PInf = PInf"
| "fabs NInf = PInf"
| "fabs NaN = NaN"

fun fmul :: "pyfloat \<Rightarrow> pyfloat \<Rightarrow> pyfloat" where
  "fmul (Fin a) (Fin b) = fround (a * b)"
| "fmul NaN y = NaN"
| "fmul x NaN = NaN"
| "fmul (Fin a) PInf = (if a = 0 then NaN else if 0 < a then PInf else NInf)"
| "fmul (Fin a) NInf = (if a = 0 then NaN else if 0 < a then NInf else PInf)"
| "fmul PInf (Fin b) = (if b = 0 then NaN else if 0 < b then PInf else NInf)"
| "fmul NInf (Fin b) = (if b = 0 then NaN else if 0 < b then NInf else PInf)"
| "fmul PInf PInf = PInf"
| "fmul PInf NInf = NInf"
| "fmul NInf PInf = NInf"
| "fmul NInf NInf = PInf"

text \<open>Python's \<open>/\<close> on floats raises ZeroDivisionError for a zero divisor.\<close>

fun fdiv :: "pyfloat \<Rightarrow> pyfloat \<Rightarrow> pyerror + pyfloat" where
  "fdiv x (Fin b) =
     (if b = 0 then Inl ZeroDivisionError
      else Inr (case x of
                  Fin a \<Rightarrow> fround (a / b)
                | PInf \<Rightarrow> if 0 < b then PInf else NInf
                | NInf \<Rightarrow> if 0 < b then NInf else PInf
                | NaN \<Rightarrow> NaN))"
| "fdiv x NaN = Inr NaN"
| "fdiv NaN y = Inr NaN"
| "fdiv (Fin a) y = Inr (Fin 0)"
| "fdiv x y = Inr NaN"

text \<open>\<open>pd.isna\<close> on a float: true for NaN only, false for the infinities.\<close>

fun isna :: "pyfloat \<Rightarrow> bool" where
  "isna NaN = True"
| "isna x = False"

text \<open>The conversion of a Python int to a float raises OverflowError when it is too large.\<close>

definition float_of_int :: "int \<Rightarrow> pyerror + pyfloat" where
  "float_of_int n = (if dbl_max < \<bar>of_int n\<bar> then Inl OverflowError else Inr (Fin (of_int n)))"

text \<open>The value that \<open>response.json()\<close> returns: Python's decoder also accepts
  \<open>Infinity\<close> and \<open>NaN\<close>. A dict is an association list, looked up with \<open>map_of\<close>
  (a decoded dict has no key twice).\<close>

datatype json =
    JNull
  | JBool bool
  | JInt int
  | JFloat pyfloat
  | JStr string
  | JArr "json list"
  | JObj "(string \<times> json) list"

fun truthy :: "json \<Rightarrow> bool" where
  "truthy JNull = False"
| "truthy (JBool b) = b"
| "truthy (JInt n) = (n \<noteq> 0)"
| "truthy (JFloat f) = (f \<noteq> Fin 0)"
| "truthy (JStr s) = (s \<noteq> [])"
| "truthy (JArr xs) = (xs \<noteq> [])"
| "truthy (JObj d) = (d \<noteq> [])"

text \<open>\<open>x or d\<close> on values and on strings.\<close>

definition or_else :: "json \<Rightarrow> json \<Rightarrow> json" where
  "or_else x d = (if truthy x then x else d)"

definition str_or :: "string \<Rightarrow> string \<Rightarrow> string" where
  "str_or s d = (if s = [] then d else s)"

text \<open>\<open>coin.get(key, default)\<close> and \<open>coin.get(key)\<close>, whose default is \<open>None\<close>.\<close>

definition dict_get :: "(string \<times> json) list \<Rightarrow> string \<Rightarrow> json \<Rightarrow> json" where
  "dict_get d k dflt = (case map_of d k of None \<Rightarrow> dflt | Some v \<Rightarrow> v)"

definition dict_get_none :: "(string \<times> json) list \<Rightarrow> string \<Rightarrow> json" where
  "dict_get_none d k = dict_get d k JNull"

text \<open>
  The built-ins of Python that the transformer calls and that are not modelled here are
  parameters: \<open>float(s)\<close> and \<open>int(s)\<close> on a string (\<open>None\<close> is ValueError), and the text that
  \<open>str\<close> gives for a number, a list or a dict.
\<close>

record builtins =
  float_of_str :: "string \<Rightarrow> pyfloat option"
  int_of_str :: "string \<Rightarrow> int option"
  repr_of :: "json \<Rightarrow> string"

fun py_str :: "builtins \<Rightarrow> json \<Rightarrow> string" where
  "py_str B (JStr s) = s"
| "py_str B JNull = ''None''"
| "py_str B (JBool b) = (if b then ''True'' else ''False'')"
| "py_str B v = repr_of B v"

fun py_float :: "builtins \<Rightarrow> json \<Rightarrow> pyerror + pyfloat" where
  "py_float B (JFloat f) = Inr f"
| "py_float B (JInt n) = float_of_int n"
| "py_float B (JBool b) = Inr (Fin (if b then 1 else 0))"
| "py_float B (JStr s) = (case float_of_str B s of None \<Rightarrow> Inl ValueError | Some f \<Rightarrow> Inr f)"
| "py_float B v = Inl TypeError"

text \<open>\<open>int(x)\<close> truncates a finite float towards zero.\<close>

definition trunc :: "real \<Rightarrow> int" where
  "trunc r = (if 0 \<le> r then \<lfloor>r\<rfloor> else \<lceil>r\<rceil>)"

fun py_int :: "builtins \<Rightarrow> json \<Rightarrow> pyerror + int" where
  "py_int B (JInt n) = Inr n"
| "py_int B (JBool b) = Inr (if b then 1 else 0)"
| "py_int B (JFloat (Fin r)) = Inr (trunc r)"
| "py_int B (JFloat NaN) = Inl ValueError"
| "py_int B (JFloat f) = Inl OverflowError"
| "py_int B (JStr s) = (case int_of_str B s of None \<Rightarrow> Inl ValueError | Some n \<Rightarrow> Inr n)"
| "py_int B v = Inl TypeError"

text \<open>\<open>str.upper\<close>, on the ASCII letters.\<close>

definition upper_char :: "char \<Rightarrow> char" where
  "upper_char c =
     (case map_of (zip ''abcdefghijklmnopqrstuvwxyz'' ''ABCDEFGHIJKLMNOPQRSTUVWXYZ'') c of
        None \<Rightarrow> c
      | Some u \<Rightarrow> u)"

definition upper :: "string \<Rightarrow> string" where
  "upper s = map upper_char s"

subsection \<open>DataProcessor.process\<close>

record coin_row =
  coin_id :: string
  symbol :: string
  name :: string
  current_price :: pyfloat
  market_cap :: int
  total_volume :: int
  price_change_24h :: pyfloat
  market_cap_rank :: int
  volatility_score :: pyfloat
  extracted_at :: int

text \<open>
  The inner \<open>try\<close>: \<open>abs(price_change_24h) * volume / 1_000_000\<close>, 0.0 when that is NaN
  and 0.0 when it raises (the bare \<open>except\<close>).
\<close>

definition volatility :: "pyfloat \<Rightarrow> int \<Rightarrow> pyfloat" where
  "volatility price_change volume =
     (case float_of_int volume of
        Inl e \<Rightarrow> Fin 0
      | Inr v \<Rightarrow>
          (case fdiv (fmul (fabs price_change) v) (Fin 1000000) of
             Inl e \<Rightarrow> Fin 0
           | Inr x \<Rightarrow> if isna x then Fin 0 else x))"

definition symbol_field :: "builtins \<Rightarrow> (string \<times> json) list \<Rightarrow> string" where
  "symbol_field B d = str_or (upper (py_str B (dict_get d ''symbol'' (JStr '''')))) ''UNKNOWN''"

definition name_field :: "builtins \<Rightarrow> (string \<times> json) list \<Rightarrow> string" where
  "name_field B d = str_or (py_str B (dict_get d ''name'' (JStr ''''))) ''Unknown''"

definition then_try :: "pyerror + 'a \<Rightarrow> ('a \<Rightarrow> pyerror + 'b) \<Rightarrow> pyerror + 'b" where
  "then_try r f = (case r of Inl e \<Rightarrow> Inl e | Inr v \<Rightarrow> f v)"

text \<open>The body of the outer \<open>try\<close> after the identifier check, for a dict \<open>d\<close>:
  the first conversion that raises ends it.\<close>

definition coin_fields ::
  "builtins \<Rightarrow> int \<Rightarrow> (string \<times> json) list \<Rightarrow> string \<Rightarrow> pyerror + coin_row" where
  "coin_fields B ts d cid =
     then_try (py_float B (or_else (dict_get_none d ''current_price'') (JInt 0))) (\<lambda>price.
     then_try (py_int B (or_else (dict_get_none d ''market_cap'') (JInt 0))) (\<lambda>cap.
     then_try (py_int B (or_else (dict_get_none d ''total_volume'') (JInt 0))) (\<lambda>vol.
     then_try (py_float B (or_else (dict_get_none d ''price_change_percentage_24h'') (JInt 0))) (\<lambda>change.
     then_try (py_int B (or_else (dict_get_none d ''market_cap_rank'') (JInt 999))) (\<lambda>rank.
       Inr \<lparr>coin_id = cid, symbol = symbol_field B d, name = name_field B d,
            current_price = price, market_cap = cap, total_volume = vol,
            price_change_24h = change, market_cap_rank = rank,
            volatility_score = volatility change vol, extracted_at = ts\<rparr>)))))"

text \<open>
  One round of the loop. \<open>Inr None\<close> is \<open>continue\<close> (no identifier, or an exception
  caught by the handler), \<open>Inr (Some row)\<close> is the append. A \<open>coin\<close> that is not a dict
  has no \<open>get\<close>: the body raises AttributeError, the handler catches it, and the
  handler's own \<open>coin.get('name', 'unknown')\<close> raises it again, out of \<open>process\<close>.
\<close>

definition process_coin :: "builtins \<Rightarrow> int \<Rightarrow> json \<Rightarrow> pyerror + coin_row option" where
  "process_coin B ts coin =
     (case coin of
        JObj d \<Rightarrow>
          (let cid = py_str B (dict_get d ''id'' (JStr ''''))
           in if cid = [] then Inr None
              else (case coin_fields B ts d cid of
                      Inl e \<Rightarrow> Inr None
                    | Inr row \<Rightarrow> Inr (Some row)))
      | _ \<Rightarrow> Inl AttributeError)"

fun process_loop :: "builtins \<Rightarrow> int \<Rightarrow> json list \<Rightarrow> pyerror + coin_row list" where
  "process_loop B ts [] = Inr []"
| "process_loop B ts (coin # rest) =
     (case process_coin B ts coin of
        Inl e \<Rightarrow> Inl e
      | Inr r \<Rightarrow>
          (case process_loop B ts rest of
             Inl e \<Rightarrow> Inl e
           | Inr rows \<Rightarrow> Inr (case r of None \<Rightarrow> rows | Some row \<Rightarrow> row # rows)))"

text \<open>
  \<open>process(raw_data)\<close>, with \<open>ts\<close> the instant \<open>datetime.now()\<close> gives. A falsy payload
  gives \<open>[]\<close>. The \<open>for\<close> loop runs over the elements of a list, the keys of a dict and
  the characters of a string; a number or \<open>True\<close> is not iterable (TypeError).
\<close>

definition process :: "builtins \<Rightarrow> int \<Rightarrow> json \<Rightarrow> pyerror + coin_row list" where
  "process B ts raw_data =
     (if \<not> truthy raw_data then Inr []
      else (case raw_data of
              JArr coins \<Rightarrow> process_loop B ts coins
            | JObj d \<Rightarrow> process_loop B ts (map (\<lambda>kv. JStr (fst kv)) d)
            | JStr s \<Rightarrow> process_loop B ts (map (\<lambda>c. JStr [c]) s)
            | _ \<Rightarrow> Inl TypeError))"

text \<open>
  An instance of the built-ins for evaluating examples whose identifier, symbol and name
  are strings or null and whose numeric fields are JSON numbers: there the parsers and
  \<open>repr_of\<close> are never called.
\<close>

definition example_builtins :: builtins where
  "example_builtins =
     \<lparr>float_of_str = (\<lambda>s. None), int_of_str = (\<lambda>s. None), repr_of = (\<lambda>v. ''?'')\<rparr>"

text \<open>\<open>math.isfinite(x)\<close> and the comparison \<open>x >= 0\<close> on a float (false for NaN).\<close>

fun is_finite :: "pyfloat \<Rightarrow> bool" where
  "is_finite (Fin r) = True"
| "is_finite x = False"

fun nonneg :: "pyfloat \<Rightarrow> bool" where
  "nonneg (Fin r) = (0 \<le> r)"
| "nonneg PInf = True"
| "nonneg x = False"

text \<open>The identifier that \<open>process\<close> reads from a raw record.\<close>

definition raw_id :: "builtins \<Rightarrow> json \<Rightarrow> string" where
  "raw_id B coin = (case coin of JObj d \<Rightarrow> py_str B (dict_get d ''id'' (JStr '''')) | _ \<Rightarrow> [])"

fun is_dict :: "json \<Rightarrow> bool" where
  "is_dict (JObj d) = True"
| "is_dict v = False"

text \<open>What one round of the loop appends, when it does not raise.\<close>

definition kept :: "builtins \<Rightarrow> int \<Rightarrow> json \<Rightarrow> coin_row option" where
  "kept B ts coin = (case process_coin B ts coin of Inl e \<Rightarrow> None | Inr r \<Rightarrow> r)"

section \<open>Persistence gateway (database.py)\<close>

text \<open>
  The datastore is an external collaborator. Its table is the list of the rows it holds,
  and what a request does is given from outside. An upsert either commits and leaves a
  new table, or makes the client raise; the table it leaves then is part of the outcome
  too, since nothing in \<open>save_coins\<close> undoes a write.
\<close>

type_synonym table = "coin_row list"

datatype upsert_outcome = Committed table | Raised table


definition save_coins ::
  "(table \<Rightarrow> coin_row list \<Rightarrow> upsert_outcome) \<Rightarrow> table \<Rightarrow> coin_row list \<Rightarrow> bool \<times> table" where
  "save_coins execute_upsert t coins_data =
     (if coins_data = [] then (False, t)
      else (case execute_upsert t coins_data of
              Raised t' \<Rightarrow> (False, t')
            | Committed t' \<Rightarrow> (True, t')))"

text \<open>
  The loop over \<open>result.data\<close>: \<open>seen\<close> is a dict, which keeps its keys in the order of
  their insertion, so it is an association list extended at the end.
\<close>

fun unique_coins :: "coin_row list \<Rightarrow> (string \<times> coin_row) list \<Rightarrow> (string \<times> coin_row) list" where
  "unique_coins [] seen = seen"
| "unique_coins (coin # rest) seen =
     unique_coins rest
       (if map_of seen (coin_id coin) = None then seen @ [(coin_id coin, coin)] else seen)"

text \<open>\<open>get_coins\<close>, from the answer to the query: \<open>None\<close> when the query raises.\<close>

definition get_coins :: "coin_row list option \<Rightarrow> coin_row list" where
  "get_coins result = (case result of None \<Rightarrow> [] | Some data \<Rightarrow> map snd (unique_coins data []))"

text \<open>What \<open>.order("extracted_at", desc=True)\<close> promises of the answer.\<close>

definition newest_first :: "coin_row list \<Rightarrow> bool" where
  "newest_first data = sorted_wrt (\<lambda>a b. extracted_at b \<le> extracted_at a) data"





text \<open>A stored row for examples, with the given identifier and extraction instant.\<close>

definition example_row :: "string \<Rightarrow> int \<Rightarrow> coin_row" where
  "example_row cid ts =
     \<lparr>coin_id = cid, symbol = ''UNKNOWN'', name = ''Unknown'', current_price = Fin 0,
      market_cap = 0, total_volume = 0, price_change_24h = Fin 0, market_cap_rank = 999,
      volatility_score = Fin 0, extracted_at = ts\<rparr>"

section \<open>Pipeline orchestrator (etl_pipeline.py)\<close>

text \<open>\<open>len(data)\<close> is defined on a list, a dict and a string, and raises TypeError otherwise.\<close>

fun has_len :: "json \<Rightarrow> bool" where
  "has_len (JArr xs) = True"
| "has_len (JObj d) = True"
| "has_len (JStr s) = True"
| "has_len v = False"

text \<open>
  \<open>get_top_coins\<close>: \<open>response\<close> is the decoded payload, or \<open>None\<close> when the request, the
  status check or the decoding raises. The log line takes \<open>len(data)\<close> inside the \<open>try\<close>,
  so a payload without a length ends in the handler too, and Python's \<open>None\<close> is
  returned. The audit copy of the payload catches its own failures and is not part of the
  model.
\<close>

definition get_top_coins :: "json option \<Rightarrow> json" where
  "get_top_coins response =
     (case response of
        None \<Rightarrow> JNull
      | Some data \<Rightarrow> if has_len data then data else JNull)"

text \<open>The stages a run enters, as its log lines record them.\<close>

datatype stage = Extracting | Transforming | Loading | Summarizing

text \<open>
  \<open>ETLPipeline.run\<close>: the result, the table after the run and the stages entered. The
  whole body is in one \<open>try\<close>: an exception of \<open>process\<close> is caught by the \<open>except\<close> of
  \<open>run\<close>, and so is one of the summary after a successful load. The summary reads the
  table (\<open>get_coins\<close> on the answer \<open>execute_select\<close> gives) and, when there are rows,
  builds a frame of them and logs its statistics; \<open>summary_raises coins\<close> says whether
  that raises (pandas is not modelled). The load is then already committed.
\<close>

definition run ::
  "builtins \<Rightarrow> int \<Rightarrow> json option \<Rightarrow> (table \<Rightarrow> coin_row list \<Rightarrow> upsert_outcome)
     \<Rightarrow> (table \<Rightarrow> coin_row list option) \<Rightarrow> (coin_row list \<Rightarrow> bool) \<Rightarrow> table
     \<Rightarrow> bool \<times> table \<times> stage list" where
  "run B now response execute_upsert execute_select summary_raises t =
     (let raw_data = get_top_coins response
      in if \<not> truthy raw_data then (False, t, [Extracting])
         else (case process B now raw_data of
                 Inl e \<Rightarrow> (False, t, [Extracting, Transforming])
               | Inr transformed \<Rightarrow>
                   if transformed = [] then (False, t, [Extracting, Transforming])
                   else (case save_coins execute_upsert t transformed of
                           (False, t') \<Rightarrow> (False, t', [Extracting, Transforming, Loading])
                         | (True, t') \<Rightarrow>
                             (let coins = get_coins (execute_select t')
                              in if coins \<noteq> [] \<and> summary_raises coins
                                 then (False, t', [Extracting, Transforming, Loading, Summarizing])
                                 else (True, t', [Extracting, Transforming, Loading, Summarizing])))))"

section \<open>Market data client (api_handler.py)\<close>

subsection \<open>The OHLC resampler\<close>

text \<open>
  The payload of the historical endpoint: lists of \<open>[timestamp, value]\<close> pairs, the
  timestamps in milliseconds. \<open>prices\<close> is \<open>None\<close> when the key is missing (the lookup
  \<open>data['prices']\<close> then raises KeyError), \<open>total_volumes\<close> is \<open>None\<close> when that key is
  absent (no volume column is added).
\<close>

record market_chart =
  prices :: "(int \<times> real) list option"
  total_volumes :: "(int \<times> real) list option"

text \<open>
  One row of the resulting frame. A value is \<open>None\<close> where the frame holds NaN;
  \<open>bar_volume\<close> is \<open>None\<close> also when there is no volume column. The values of the samples
  are numbers.
\<close>

record bar =
  bar_time :: int
  bar_open :: "real option"
  bar_high :: "real option"
  bar_low :: "real option"
  bar_close :: "real option"
  bar_volume :: "real option"

text \<open>The rule of the resampling: \<open>1H\<close>, \<open>4H\<close> or \<open>1D\<close>, in milliseconds.\<close>

definition bucket_width :: "int \<Rightarrow> int" where
  "bucket_width days = (if days \<le> 7 then 3600000 else if days \<le> 30 then 14400000 else 86400000)"

text \<open>
  pandas sorts the index first (a stable sort), then cuts the span from the first to the
  last timestamp into bins \<open>[q * w, (q + 1) * w)\<close>, labelled by their left edge.
\<close>

definition bucket_of :: "int \<Rightarrow> int \<Rightarrow> int" where
  "bucket_of w t = (t div w) * w"

definition bins :: "int \<Rightarrow> (int \<times> real) list \<Rightarrow> int list" where
  "bins w samples =
     (if samples = [] then []
      else map (\<lambda>q. q * w)
             [Min (set (map fst samples)) div w .. Max (set (map fst samples)) div w])"

definition in_bucket :: "int \<Rightarrow> int \<Rightarrow> (int \<times> real) list \<Rightarrow> real list" where
  "in_bucket w b samples = map snd (filter (\<lambda>s. bucket_of w (fst s) = b) (sort_key fst samples))"

text \<open>\<open>.ohlc()\<close> of one bin: a row of NaN for an empty bin, which \<open>dropna\<close> removes.\<close>

definition ohlc_bin :: "int \<Rightarrow> real list \<Rightarrow> bar option" where
  "ohlc_bin b ps =
     (if ps = [] then None
      else Some \<lparr>bar_time = b, bar_open = Some (hd ps), bar_high = Some (Max (set ps)),
                 bar_low = Some (Min (set ps)), bar_close = Some (last ps),
                 bar_volume = None\<rparr>)"

definition resample_ohlc :: "int \<Rightarrow> (int \<times> real) list \<Rightarrow> bar list" where
  "resample_ohlc w samples =
     List.map_filter (\<lambda>b. ohlc_bin b (in_bucket w b samples)) (bins w samples)"

text \<open>\<open>.sum()\<close> of every bin of the volume series: 0 for an empty bin inside its span.\<close>

definition resample_sum :: "int \<Rightarrow> (int \<times> real) list \<Rightarrow> (int \<times> real) list" where
  "resample_sum w samples = map (\<lambda>b. (b, sum_list (in_bucket w b samples))) (bins w samples)"

text \<open>
  \<open>ohlc['volume'] = ...\<close> aligns the sums on the index of \<open>ohlc\<close>: a row whose
  timestamp is not a bin of the volume series gets NaN. When \<open>ohlc\<close> has no row at all
  and there are sums, pandas gives the empty frame the index of the sums instead: one
  row for every bin of the volume series, its open, high, low and close NaN.
\<close>

definition set_volume :: "(int \<times> real) list \<Rightarrow> bar \<Rightarrow> bar" where
  "set_volume totals b = b\<lparr>bar_volume := map_of totals (bar_time b)\<rparr>"

definition volume_only :: "int \<times> real \<Rightarrow> bar" where
  "volume_only bv =
     \<lparr>bar_time = fst bv, bar_open = None, bar_high = None, bar_low = None, bar_close = None,
      bar_volume = Some (snd bv)\<rparr>"

definition assign_volume :: "(int \<times> real) list \<Rightarrow> bar list \<Rightarrow> bar list" where
  "assign_volume totals ohlc =
     (if ohlc = [] \<and> totals \<noteq> [] then map volume_only totals
      else map (set_volume totals) ohlc)"

definition process_historical_data :: "market_chart \<Rightarrow> int \<Rightarrow> pyerror + bar list" where
  "process_historical_data data days =
     (case prices data of
        None \<Rightarrow> Inl KeyError
      | Some ps \<Rightarrow>
          (let ohlc = resample_ohlc (bucket_width days) ps
           in case total_volumes data of
                None \<Rightarrow> Inr ohlc
              | Some vs \<Rightarrow> Inr (assign_volume (resample_sum (bucket_width days) vs) ohlc)))"

subsection \<open>The historical cache\<close>

text \<open>\<open>str(days)\<close> and the key \<open>f"{coin_id}_{days}"\<close>.\<close>

fun digits :: "nat \<Rightarrow> string" where
  "digits n = (if n < 10 then [''0123456789'' ! n] else digits (n div 10) @ [''0123456789'' ! (n mod 10)])"

declare digits.simps [simp del]

definition str_of_int :: "int \<Rightarrow> string" where
  "str_of_int i = (if i < 0 then ''-'' @ digits (nat (- i)) else digits (nat i))"

definition cache_key :: "string \<Rightarrow> int \<Rightarrow> string" where
  "cache_key coin days = coin @ ''_'' @ str_of_int days"

text \<open>
  An entry of the cache: the instant of the fetch, in microseconds (\<open>None\<close> when the
  stored text is not an ISO date, so that \<open>fromisoformat\<close> raises), and the bars. The
  client's state is the cache and the list of the GET requests it has sent.
\<close>

record cache_entry =
  entry_time :: "int option"
  entry_data :: "bar list"

record api_state =
  cache :: "string \<rightharpoonup> cache_entry"
  requests :: "(string \<times> int) list"

definition cache_ttl :: int where
  "cache_ttl = 5 * 60 * 1000000"

text \<open>
  The cache check: \<open>Inl\<close> when it raises, \<open>Inr (Some bars)\<close> on a hit within the TTL,
  \<open>Inr None\<close> when the entry is absent or too old.
\<close>

definition check_cache :: "api_state \<Rightarrow> int \<Rightarrow> string \<Rightarrow> pyerror + bar list option" where
  "check_cache st now key =
     (case cache st key of
        None \<Rightarrow> Inr None
      | Some e \<Rightarrow>
          (case entry_time e of
             None \<Rightarrow> Inl ValueError
           | Some cache_time \<Rightarrow>
               if now - cache_time < cache_ttl then Inr (Some (entry_data e)) else Inr None))"

text \<open>
  \<open>get_historical_data\<close>. The server is a parameter: \<open>http_get coin days\<close> is the decoded
  payload, or \<open>None\<close> when the request, the status check or the decoding raises. \<open>now\<close>
  is the instant of the call. The result is \<open>None\<close> where the source returns \<open>None\<close>.
  The copy of the cache written to a file (best-effort) is not part of the model.
\<close>

definition get_historical_data ::
  "(string \<Rightarrow> int \<Rightarrow> market_chart option) \<Rightarrow> int \<Rightarrow> string \<Rightarrow> int \<Rightarrow> api_state
     \<Rightarrow> bar list option \<times> api_state" where
  "get_historical_data http_get now coin days st =
     (let key = cache_key coin days
      in case check_cache st now key of
           Inl e \<Rightarrow> (None, st)
         | Inr (Some bars) \<Rightarrow> (Some bars, st)
         | Inr None \<Rightarrow>
             (let sent = st\<lparr>requests := requests st @ [(coin, days)]\<rparr>
              in case http_get coin days of
                   None \<Rightarrow> (None, sent)
                 | Some data \<Rightarrow>
                     (case process_historical_data data days of
                        Inl e \<Rightarrow> (None, sent)
                      | Inr ohlc \<Rightarrow>
                          (Some ohlc,
                           sent\<lparr>cache := (cache sent)(key \<mapsto>
                                    \<lparr>entry_time = Some now, entry_data = ohlc\<rparr>)\<rparr>))))"

text \<open>Servers and a payload for examples.\<close>

definition example_chart :: market_chart where
  "example_chart =
     \<lparr>prices = Some [(0, 1), (60000, 3), (120000, 2), (18000000, 5)],
      total_volumes = Some [(0, 10), (60000, 20)]\<rparr>"

definition server_up :: "string \<Rightarrow> int \<Rightarrow> market_chart option" where
  "server_up coin days = Some example_chart"

definition server_down :: "string \<Rightarrow> int \<Rightarrow> market_chart option" where
  "server_down coin days = None"

definition server_garbled :: "string \<Rightarrow> int \<Rightarrow> market_chart option" where
  "server_garbled coin days = Some \<lparr>prices = None, total_volumes = None\<rparr>"

definition empty_state :: api_state where
  "empty_state = \<lparr>cache = Map.empty, requests = []\<rparr>"

definition example_bars :: "bar list" where
  "example_bars =
     [\<lparr>bar_time = 0, bar_open = Some 1, bar_high = Some 3, bar_low = Some 1,
        bar_close = Some 2, bar_volume = Some 30\<rparr>,
      \<lparr>bar_time = 18000000, bar_open = Some 5, bar_high = Some 5, bar_low = Some 5,
        bar_close = Some 5, bar_volume = None\<rparr>]"

section \<open>Properties of the indicator library\<close>

lemma length_rolling_mean [simp]: "length (rolling_mean w xs) = length xs"
  by (simp add: rolling_mean_def)

lemma nth_rolling_mean: "i < length xs \<Longrightarrow> rolling_mean w xs ! i = mean (window_at w i xs)"
  by (simp add: rolling_mean_def)

lemma length_diff [simp]: "length (diff xs) = length xs"
  by (cases xs) (simp_all add: diff_def)

lemma length_where_or_zero [simp]: "length (where_or_zero c ds) = length ds"
  by (simp add: where_or_zero_def)

lemma mean_nonneg: "(\<forall>x \<in> set xs. 0 \<le> x) \<Longrightarrow> 0 \<le> mean xs"
  by (simp add: mean_def sum_list_nonneg)

lemma set_window_at: "set (window_at w i xs) \<subseteq> set xs"
  unfolding window_at_def by (meson set_drop_subset set_take_subset subset_trans)

lemma rolling_mean_nonneg:
  assumes "\<forall>x \<in> set xs. 0 \<le> x" and "v \<in> set (rolling_mean w xs)"
  shows "0 \<le> v"
proof -
  from assms(2) obtain i where "v = mean (window_at w i xs)"
    by (auto simp: rolling_mean_def)
  moreover have "\<forall>x \<in> set (window_at w i xs). 0 \<le> x"
    using assms(1) set_window_at by blast
  ultimately show ?thesis by (simp add: mean_nonneg)
qed

lemma gains_nonneg: "\<forall>x \<in> set (where_or_zero (\<lambda>v. 0 < v) ds). 0 \<le> x"
  by (auto simp: where_or_zero_def split: option.splits)

lemma losses_nonneg: "\<forall>x \<in> set (map uminus (where_or_zero (\<lambda>v. v < 0) ds)). 0 \<le> x"
  by (auto simp: where_or_zero_def split: option.splits)

lemma relative_strength_length:
  "relative_strength w xs = Some rs \<Longrightarrow> length rs = length xs"
  by (auto simp: relative_strength_def avg_gain_def avg_loss_def rolling_def fillna_def
      series_div_def replace_zero_def split: option.splits if_splits)

lemma relative_strength_nth:
  assumes "relative_strength w xs = Some rs" and "i < length xs"
  shows "\<exists>gain loss. avg_gain w xs = Some gain \<and> avg_loss w xs = Some loss \<and>
           length gain = length xs \<and> length loss = length xs \<and>
           rs ! i = (if loss ! i = 0 then 0 else gain ! i / loss ! i)"
  using assms
  by (auto simp: relative_strength_def avg_gain_def avg_loss_def rolling_def fillna_def
      series_div_def replace_zero_def split: option.splits if_splits)

lemma relative_strength_nonneg:
  assumes "relative_strength w xs = Some rs" and "r \<in> set rs"
  shows "0 \<le> r"
proof -
  from assms(2) obtain i where i: "i < length rs" "r = rs ! i"
    by (auto simp: in_set_conv_nth)
  then have il: "i < length xs" using relative_strength_length [OF assms(1)] by simp
  from relative_strength_nth [OF assms(1) il] obtain gain loss where
    g: "avg_gain w xs = Some gain" and l: "avg_loss w xs = Some loss"
    and lg: "length gain = length xs" and ll: "length loss = length xs"
    and eq: "rs ! i = (if loss ! i = 0 then 0 else gain ! i / loss ! i)" by blast
  have "gain ! i \<in> set gain" "loss ! i \<in> set loss"
    using lg ll il by simp_all
  then have "0 \<le> gain ! i" "0 \<le> loss ! i"
    using g l rolling_mean_nonneg [OF gains_nonneg] rolling_mean_nonneg [OF losses_nonneg]
    by (auto simp: avg_gain_def avg_loss_def rolling_def split: if_splits)
  then
  show ?thesis using eq i by simp
qed

lemma rsi_formula_range: "0 \<le> (r::real) \<Longrightarrow> 0 \<le> 100 - 100 / (1 + r) \<and> 100 - 100 / (1 + r) \<le> 100"
  by (simp add: field_simps)

lemma rsi_range:
  assumes "v \<in> set (calculate_rsi data w)"
  shows "0 \<le> v \<and> v \<le> 100"
proof (cases data)
  case None
  with assms show ?thesis by (simp add: calculate_rsi_def)
next
  case (Some xs)
  show ?thesis
  proof (cases "int (length xs) < w + 1 \<or> relative_strength w xs = None")
    case True
    with assms Some have "v = 50"
      by (auto simp: calculate_rsi_def split: if_splits)
    then show ?thesis by simp
  next
    case False
    then obtain rs where rs: "relative_strength w xs = Some rs" by auto
    with assms Some False obtain r where "r \<in> set rs" "v = 100 - 100 / (1 + r)"
      by (auto simp: calculate_rsi_def fillna_def)
    then show ?thesis
      using relative_strength_nonneg [OF rs] rsi_formula_range by blast
  qed
qed

lemma rsi_short: "int (length xs) < w + 1 \<Longrightarrow> calculate_rsi (Some xs) w = replicate (length xs) 50"
  by (simp add: calculate_rsi_def)

lemma nth_diff:
  "i < length xs \<Longrightarrow> diff xs ! i = (if i = 0 then None else Some (xs ! i - xs ! (i - 1)))"
  by (cases xs) (auto simp: diff_def nth_Cons split: nat.splits)

lemma where_or_zero_constant: "where_or_zero c (diff (replicate n a)) = replicate n 0"
  by (rule nth_equalityI) (simp_all add: where_or_zero_def nth_diff)

lemma window_at_replicate: "window_at w i (replicate n a) = replicate (min (Suc i) n - (Suc i - w)) a"
  by (simp add: window_at_def)

lemma mean_zeros: "mean (replicate k 0) = 0"
  by (simp add: mean_def sum_list_replicate)

lemma rolling_mean_zero: "rolling_mean w (replicate n 0) = replicate n 0"
  by (rule nth_equalityI) (simp_all add: nth_rolling_mean window_at_replicate mean_zeros)

lemma relative_strength_constant:
  "1 \<le> w \<Longrightarrow> relative_strength w (replicate n a) = Some (replicate n 0)"
  by (simp add: relative_strength_def avg_gain_def avg_loss_def rolling_def where_or_zero_constant
      rolling_mean_zero replace_zero_def series_div_def fillna_def map_replicate_const zip_replicate)

lemma rsi_constant:
  "1 \<le> w \<Longrightarrow> w + 1 \<le> int n \<Longrightarrow> calculate_rsi (Some (replicate n a)) w = replicate n 0"
  by (simp add: calculate_rsi_def relative_strength_constant fillna_def)

lemma sma_window:
  assumes "1 \<le> w" and "w \<le> int (length xs)" and "i < length xs"
  shows "calculate_sma (Some xs) w ! i =
           Some (if int i < w - 1 then mean (take (Suc i) xs)
                 else mean (take (nat w) (drop (Suc i - nat w) xs)))"
proof -
  have "calculate_sma (Some xs) w ! i = Some (mean (window_at (nat w) i xs))"
    using assms by (simp add: calculate_sma_def rolling_def nth_rolling_mean)
  moreover have "window_at (nat w) i xs = take (Suc i) xs" if "int i < w - 1"
    using that by (simp add: window_at_def)
  moreover have "window_at (nat w) i xs = take (nat w) (drop (Suc i - nat w) xs)" if "\<not> int i < w - 1"
  proof -
    have "nat w \<le> Suc i" using that by linarith
    then show ?thesis by (simp add: window_at_def drop_take)
  qed
  ultimately show ?thesis by simp
qed

lemma sma_length: "1 \<le> w \<Longrightarrow> length (calculate_sma (Some xs) w) = length xs"
  by (simp add: calculate_sma_def rolling_def nan_series_def)

lemma sma_undefined:
  "int (length xs) < w \<or> w < 1 \<Longrightarrow> calculate_sma (Some xs) w = replicate (length xs) None"
  by (auto simp: calculate_sma_def rolling_def nan_series_def)

subsection \<open>Claims about the indicators\<close>

text \<open>
  C2 (amended). For a series of at least \<open>window + 1\<close> points and a window of at least 1,
  at every position where the trailing average of the losses is exactly zero, the relative
  strength is taken to be 0 (not infinite) and the RSI at that position is
  \<open>100 - 100 / (1 + 0) = 0\<close>, not 100.
\<close>

theorem rsi_zero_loss_gives_zero:
  assumes "1 \<le> w" and "w + 1 \<le> int (length xs)"
    and "avg_loss w xs = Some loss" and "i < length xs" and "loss ! i = 0"
  shows "map_option (\<lambda>rs. rs ! i) (relative_strength w xs) = Some 0
         \<and> calculate_rsi (Some xs) w ! i = 0"
proof -
  obtain gain where g: "avg_gain w xs = Some gain"
    using assms(1) by (simp add: avg_gain_def rolling_def)
  then obtain rs where rs: "relative_strength w xs = Some rs"
    using assms(3) by (simp add: relative_strength_def)
  from relative_strength_nth [OF rs assms(4)] assms(3,5) have z: "rs ! i = 0" by auto
  have len: "length rs = length xs" by (rule relative_strength_length [OF rs])
  have "calculate_rsi (Some xs) w ! i = 0"
    using assms(2,4) rs z len by (simp add: calculate_rsi_def fillna_def)
  with rs z show ?thesis by simp
qed

theorem rsi_zero_loss_gives_zero_witness:
  "avg_loss 2 [1, 2, 3] = Some [0, 0, 0]
   \<and> map_option (\<lambda>rs. rs ! 2) (relative_strength 2 [1, 2, 3]) = Some 0
   \<and> calculate_rsi (Some [1, 2, 3]) 2 ! 2 = 0"
proof -
  have l: "avg_loss 2 [1, 2, 3] = Some [0, 0, 0]" by code_simp
  show ?thesis
    using l rsi_zero_loss_gives_zero [where w = 2 and xs = "[1, 2, 3]" and loss = "[0, 0, 0]" and i = 2]
    by simp
qed

text \<open>
  The claim as stated fails on a rising series: every trailing loss average is zero and
  the RSI is 0 at every position.
\<close>

theorem rsi_zero_loss_counterexample:
  "avg_loss 2 [1, 2, 3] = Some [0, 0, 0] \<and> calculate_rsi (Some [1, 2, 3]) 2 = [0, 0, 0]"
  by code_simp

text \<open>
  C3 (amended). Every RSI value lies in [0, 100], for every input and window; a series of
  fewer than \<open>window + 1\<close> points gives the constant series 50; a constant series of at
  least \<open>window + 1\<close> points (window at least 1) gives the constant series 0, not 50.
\<close>

theorem rsi_range_short_constant:
  "(\<forall>v \<in> set (calculate_rsi data w). 0 \<le> v \<and> v \<le> 100)
   \<and> (int (length xs) < w + 1 \<longrightarrow> calculate_rsi (Some xs) w = replicate (length xs) 50)
   \<and> (1 \<le> w \<and> w + 1 \<le> int n \<longrightarrow> calculate_rsi (Some (replicate n a)) w = replicate n 0)"
  using rsi_range rsi_short rsi_constant by blast

theorem rsi_range_short_constant_witness:
  "list_all (\<lambda>v. 0 \<le> v \<and> v \<le> 100) (calculate_rsi (Some [1, 3, 2, 5]) 2)
   \<and> calculate_rsi (Some [1, 2]) 2 = [50, 50]
   \<and> calculate_rsi (Some (replicate 3 5)) 2 = replicate 3 0"
  using rsi_range_short_constant [where data = "Some [1, 3, 2, 5]" and w = 2 and xs = "[1, 2]"
      and n = 3 and a = 5]
  by (simp add: list_all_iff)

theorem rsi_constant_counterexample:
  "calculate_rsi (Some [5, 5, 5]) 2 = [0, 0, 0]"
  by code_simp

text \<open>
  C4 (amended). For a window between 1 and the length of the series, SMA returns a series
  of the same length whose value at each of the first \<open>window - 1\<close> positions is the mean
  of all points so far and at every later position the mean of the trailing \<open>window\<close>
  points. For a series shorter than the window (or a window below 1) it returns a series
  of the same length with every value undefined (NaN); for \<open>None\<close> it returns the empty
  series. Every raise of the source is a branch of \<open>calculate_sma\<close>, which is total.
\<close>

theorem sma_partial_then_trailing:
  "(1 \<le> w \<and> w \<le> int (length xs) \<longrightarrow>
      length (calculate_sma (Some xs) w) = length xs
      \<and> (\<forall>i < length xs. calculate_sma (Some xs) w ! i =
            Some (if int i < w - 1 then mean (take (Suc i) xs)
                  else mean (take (nat w) (drop (Suc i - nat w) xs)))))
   \<and> (int (length ys) < v \<or> v < 1 \<longrightarrow> calculate_sma (Some ys) v = replicate (length ys) None)
   \<and> calculate_sma None u = []"
proof -
  have "calculate_sma None u = []" by (simp add: calculate_sma_def)
  then show ?thesis using sma_window sma_length sma_undefined by blast
qed

theorem sma_partial_then_trailing_witness:
  "length (calculate_sma (Some [1, 2, 3, 4]) 2) = 4
   \<and> calculate_sma (Some [1, 2, 3, 4]) 2 ! 0 = Some (mean [1])
   \<and> calculate_sma (Some [1, 2, 3, 4]) 2 ! 3 = Some (mean [3, 4])
   \<and> calculate_sma (Some [1, 2]) 3 = [None, None]
   \<and> calculate_sma None 3 = []"
proof -
  note t = sma_partial_then_trailing [where w = 2 and xs = "[1, 2, 3, 4]" and ys = "[1, 2]"
      and v = 3 and u = 3]
  from t have "\<forall>i<4. calculate_sma (Some [1, 2, 3, 4]) 2 ! i =
      Some (if int i < 1 then mean (take (Suc i) [1, 2, 3, 4])
            else mean (take 2 (drop (Suc i - 2) [1, 2, 3, 4])))"
    by simp
  then have "calculate_sma (Some [1, 2, 3, 4]) 2 ! 0 = Some (mean [1])"
    and "calculate_sma (Some [1, 2, 3, 4]) 2 ! 3 = Some (mean [3, 4])"
    by (simp_all add: numeral_2_eq_2)
  with t show ?thesis by simp
qed

theorem sma_counterexample:
  "calculate_sma (Some [1, 2]) 3 = [None, None] \<and> calculate_sma (Some [7]) 1 = [Some 7]"
  by code_simp

section \<open>Properties of the feature transformer\<close>

lemma dbl_max_big: "10 ^ 300 \<le> dbl_max"
  unfolding dbl_max_def by simp

lemma dbl_max_pos: "0 < dbl_max"
  using dbl_max_big by (simp add: order.strict_trans2 [of 0 "10 ^ 300"])

lemma float_of_int_small: "\<bar>n\<bar> \<le> 10 ^ 300 \<Longrightarrow> float_of_int n = Inr (Fin (of_int n))"
proof -
  assume "\<bar>n\<bar> \<le> 10 ^ 300"
  then have "\<bar>of_int n :: real\<bar> \<le> 10 ^ 300"
    by (metis of_int_abs of_int_le_iff of_int_numeral of_int_power)
  then show ?thesis using dbl_max_big by (simp add: float_of_int_def)
qed

lemma fround_small: "\<bar>r\<bar> \<le> dbl_max \<Longrightarrow> fround r = Fin r"
  by (auto simp: fround_def)

lemma fround_not_nan: "\<not> isna (fround r)"
  by (simp add: fround_def)

lemma fround_nonneg: "0 \<le> r \<Longrightarrow> nonneg (fround r)"
  using dbl_max_pos by (simp add: fround_def)

lemma fabs_nonneg: "\<not> isna x \<Longrightarrow> nonneg (fabs x)"
  by (cases x) simp_all

lemma fmul_nonneg: "nonneg x \<Longrightarrow> nonneg y \<Longrightarrow> \<not> isna (fmul x y) \<Longrightarrow> nonneg (fmul x y)"
  by (cases x; cases y) (auto simp: fround_nonneg split: if_splits)

lemma fdiv_million: "fdiv x (Fin 1000000) = Inr y \<Longrightarrow> nonneg x \<Longrightarrow> nonneg y"
  by (cases x) (auto simp: fround_nonneg)

lemma fdiv_million_defined: "\<exists>y. fdiv x (Fin 1000000) = Inr y"
  by simp

lemma volatility_not_nan: "\<not> isna (volatility pc vol)"
  unfolding volatility_def by (auto split: sum.splits)

lemma volatility_nonneg:
  assumes "0 \<le> vol"
  shows "nonneg (volatility pc vol)"
proof (cases "float_of_int vol")
  case (Inl e)
  then show ?thesis by (simp add: volatility_def)
next
  case (Inr v)
  then have v: "nonneg v" using assms by (auto simp: float_of_int_def split: if_splits)
  obtain x where x: "fdiv (fmul (fabs pc) v) (Fin 1000000) = Inr x" by simp
  show ?thesis
  proof (cases "isna x")
    case True
    with Inr x show ?thesis by (simp add: volatility_def)
  next
    case False
    have nn: "\<not> isna (fmul (fabs pc) v)"
      using x False by (cases "fmul (fabs pc) v") auto
    then have "\<not> isna (fabs pc)" by (cases "fabs pc") auto
    then have "\<not> isna pc" by (cases pc) auto
    then have "nonneg (fmul (fabs pc) v)"
      using fmul_nonneg [OF fabs_nonneg v nn] by simp
    then have "nonneg x" using fdiv_million [OF x] by simp
    with Inr x False show ?thesis by (simp add: volatility_def)
  qed
qed

lemma volatility_finite:
  assumes "\<bar>of_int vol :: real\<bar> \<le> dbl_max" and "\<bar>p * of_int vol\<bar> \<le> dbl_max"
  shows "volatility (Fin p) vol = Fin (\<bar>p\<bar> * of_int vol / 1000000)"
proof -
  have f: "float_of_int vol = Inr (Fin (of_int vol))"
    using assms(1) by (simp add: float_of_int_def)
  have a: "\<bar>\<bar>p\<bar> * of_int vol\<bar> \<le> dbl_max"
    using assms(2) by (simp add: abs_mult)
  have "\<bar>\<bar>p\<bar> * of_int vol / 1000000\<bar> \<le> \<bar>\<bar>p\<bar> * of_int vol\<bar>"
    by (simp add: abs_mult field_simps mult_left_mono)
  then have b: "\<bar>\<bar>p\<bar> * of_int vol / 1000000\<bar> \<le> dbl_max"
    using a by linarith
  show ?thesis
    using f fround_small [OF a] fround_small [OF b] by (simp add: volatility_def)
qed

lemma volatility_nan_input: "volatility NaN vol = Fin 0"
  by (auto simp: volatility_def split: sum.splits)

lemma volatility_inf_input:
  "0 < vol \<Longrightarrow> \<bar>of_int vol :: real\<bar> \<le> dbl_max \<Longrightarrow> volatility PInf vol = PInf \<and> volatility NInf vol = PInf"
  by (simp add: volatility_def float_of_int_def)

lemma process_coin_fields:
  assumes "process_coin B ts coin = Inr (Some row)"
  shows "\<exists>d. coin = JObj d \<and> coin_id row = raw_id B coin \<and> coin_id row \<noteq> []
           \<and> symbol row = symbol_field B d \<and> name row = name_field B d
           \<and> volatility_score row = volatility (price_change_24h row) (total_volume row)
           \<and> extracted_at row = ts"
  using assms
  by (cases coin)
     (auto simp: process_coin_def coin_fields_def then_try_def raw_id_def Let_def
           split: if_splits sum.splits)

lemma upper_empty_iff: "upper s = [] \<longleftrightarrow> s = []"
  by (simp add: upper_def)

lemma symbol_field_nonempty: "symbol_field B d \<noteq> []"
  by (simp add: symbol_field_def str_or_def)

lemma name_field_nonempty: "name_field B d \<noteq> []"
  by (simp add: name_field_def str_or_def)

lemma symbol_field_cases:
  "symbol_field B d =
     (case map_of d ''symbol'' of
        None \<Rightarrow> ''UNKNOWN''
      | Some v \<Rightarrow> if py_str B v = [] then ''UNKNOWN'' else upper (py_str B v))"
  by (simp add: symbol_field_def str_or_def dict_get_def upper_empty_iff split: option.splits)

lemma name_field_cases:
  "name_field B d =
     (case map_of d ''name'' of
        None \<Rightarrow> ''Unknown''
      | Some v \<Rightarrow> if py_str B v = [] then ''Unknown'' else py_str B v)"
  by (simp add: name_field_def str_or_def dict_get_def split: option.splits)

lemma upper_None: "upper ''None'' = ''NONE''"
  by (simp add: upper_def upper_char_def)

lemma process_coin_dict: "is_dict coin \<Longrightarrow> \<exists>r. process_coin B ts coin = Inr r"
  by (cases coin) (auto simp: process_coin_def Let_def split: sum.splits)

lemma process_coin_not_dict: "\<not> is_dict coin \<Longrightarrow> process_coin B ts coin = Inl AttributeError"
  by (cases coin) (auto simp: process_coin_def)

lemma process_loop_dicts:
  "\<forall>c \<in> set coins. is_dict c \<Longrightarrow>
     process_loop B ts coins = Inr (List.map_filter (kept B ts) coins)"
proof (induction coins)
  case Nil
  then show ?case by (simp add: List.map_filter_simps)
next
  case (Cons c coins)
  then obtain r where r: "process_coin B ts c = Inr r"
    using process_coin_dict [of c B ts] by auto
  with Cons show ?case
    by (simp add: List.map_filter_simps kept_def split: option.splits)
qed

lemma length_map_filter_le: "length (List.map_filter f xs) \<le> length xs"
  by (simp add: List.map_filter_def)

lemma kept_id: "kept B ts c = Some row \<Longrightarrow> coin_id row = raw_id B c"
  using process_coin_fields [of B ts c row]
  by (auto simp: kept_def split: sum.splits)

lemma kept_subseq: "subseq (map coin_id (List.map_filter (kept B ts) coins)) (map (raw_id B) coins)"
proof (induction coins)
  case Nil
  then show ?case by (simp add: List.map_filter_simps)
next
  case (Cons c coins)
  then show ?case
    by (cases "kept B ts c") (auto simp: List.map_filter_simps dest: kept_id)
qed

lemma process_loop_first_bad:
  "\<not> is_dict c \<Longrightarrow> \<forall>x \<in> set pre. is_dict x \<Longrightarrow> process_loop B ts (pre @ c # post) = Inl AttributeError"
proof (induction pre)
  case Nil
  then show ?case by (simp add: process_coin_not_dict)
next
  case (Cons x pre)
  then obtain r where "process_coin B ts x = Inr r"
    using process_coin_dict [of x B ts] by auto
  with Cons show ?case by simp
qed

subsection \<open>Claims about the feature transformer\<close>

text \<open>
  For a batch in which every raw record is a dict, \<open>process\<close> returns, keeps at most as
  many records as it was given, in their order, each with a non-empty identifier, name
  and symbol: a record it cannot convert is skipped and the loop goes on.
\<close>

lemma process_dict_batch:
  assumes "\<forall>c \<in> set coins. is_dict c"
  shows "\<exists>rows. process B ts (JArr coins) = Inr rows
           \<and> rows = List.map_filter (kept B ts) coins
           \<and> length rows \<le> length coins
           \<and> (\<forall>r \<in> set rows. coin_id r \<noteq> [] \<and> name r \<noteq> [] \<and> symbol r \<noteq> [])
           \<and> subseq (map coin_id rows) (map (raw_id B) coins)"
proof -
  let ?rows = "List.map_filter (kept B ts) coins"
  have p: "process B ts (JArr coins) = Inr ?rows"
    using process_loop_dicts [OF assms] by (cases coins) (simp_all add: process_def List.map_filter_simps)
  have "coin_id r \<noteq> [] \<and> name r \<noteq> [] \<and> symbol r \<noteq> []" if "r \<in> set ?rows" for r
  proof -
    from that obtain c where "kept B ts c = Some r"
      by (auto simp: List.map_filter_def)
    then have "process_coin B ts c = Inr (Some r)"
      by (auto simp: kept_def split: sum.splits)
    from process_coin_fields [OF this] obtain d where
      "coin_id r \<noteq> []" "symbol r = symbol_field B d" "name r = name_field B d" by blast
    then show ?thesis
      by (simp add: symbol_field_nonempty name_field_nonempty)
  qed
  with p length_map_filter_le kept_subseq show ?thesis by blast
qed

text \<open>
  C5. The claim fails on a batch with an element that is not a dict: the handler of the
  loop calls \<open>coin.get\<close> on it and raises AttributeError out of \<open>process\<close>, so the records
  before and after it are lost with the batch instead of the one record being skipped.
\<close>

theorem process_aborts_on_non_dict_record:
  "process B ts (JArr [JObj [(''id'', JStr ''btc'')], JNull, JObj [(''id'', JStr ''eth'')]])
     = Inl AttributeError"
  using process_loop_first_bad [of JNull "[JObj [(''id'', JStr ''btc'')]]" B ts "[JObj [(''id'', JStr ''eth'')]]"]
  by (simp add: process_def)

text \<open>
  C8 (amended). For every raw record accepted by transform, the volatility score is
  \<open>|priceChangePct24h| * volume24h / 1_000_000\<close> with NaN replaced by 0 (and 0 when the
  computation raises); it is never NaN, and it is not negative when the volume is not
  negative. An infinite value is not clamped.
\<close>

theorem volatility_score_never_nan:
  assumes "process_coin B ts coin = Inr (Some row)"
  shows "volatility_score row = volatility (price_change_24h row) (total_volume row)
         \<and> \<not> isna (volatility_score row)
         \<and> (0 \<le> total_volume row \<longrightarrow> nonneg (volatility_score row))
         \<and> (price_change_24h row = NaN \<longrightarrow> volatility_score row = Fin 0)
         \<and> (\<forall>p. price_change_24h row = Fin p
                \<and> \<bar>of_int (total_volume row) :: real\<bar> \<le> dbl_max
                \<and> \<bar>p * of_int (total_volume row)\<bar> \<le> dbl_max
              \<longrightarrow> volatility_score row = Fin (\<bar>p\<bar> * of_int (total_volume row) / 1000000))"
proof -
  from process_coin_fields [OF assms]
  have v: "volatility_score row = volatility (price_change_24h row) (total_volume row)"
    by blast
  then show ?thesis
    using volatility_not_nan volatility_nonneg volatility_nan_input volatility_finite
    by simp
qed

theorem volatility_score_never_nan_witness:
  "process_coin example_builtins 7
     (JObj [(''id'', JStr ''btc''), (''price_change_percentage_24h'', JFloat (Fin (- 2))),
            (''total_volume'', JInt 3000000)])
   = Inr (Some \<lparr>coin_id = ''btc'', symbol = ''UNKNOWN'', name = ''Unknown'',
                 current_price = Fin 0, market_cap = 0, total_volume = 3000000,
                 price_change_24h = Fin (- 2), market_cap_rank = 999,
                 volatility_score = Fin 6, extracted_at = 7\<rparr>)
   \<and> \<not> isna (Fin 6) \<and> nonneg (Fin 6) \<and> Fin 6 = Fin (\<bar>- 2\<bar> * of_int 3000000 / 1000000)"
proof -
  have small: "\<bar>of_int 3000000 :: real\<bar> \<le> dbl_max" "\<bar>- 2 * of_int 3000000 :: real\<bar> \<le> dbl_max"
    using dbl_max_big by simp_all
  have vol: "volatility (Fin (- 2)) 3000000 = Fin 6"
    using volatility_finite [OF small] by simp
  have run: "process_coin example_builtins 7
     (JObj [(''id'', JStr ''btc''), (''price_change_percentage_24h'', JFloat (Fin (- 2))),
            (''total_volume'', JInt 3000000)])
   = Inr (Some \<lparr>coin_id = ''btc'', symbol = ''UNKNOWN'', name = ''Unknown'',
                 current_price = Fin 0, market_cap = 0, total_volume = 3000000,
                 price_change_24h = Fin (- 2), market_cap_rank = 999,
                 volatility_score = Fin 6, extracted_at = 7\<rparr>)"
    by (simp add: process_coin_def coin_fields_def then_try_def dict_get_def dict_get_none_def
        or_else_def symbol_field_def name_field_def str_or_def upper_def example_builtins_def
        float_of_int_small vol)
  from volatility_score_never_nan [OF run] run show ?thesis by (simp add: vol)
qed

text \<open>
  An infinite price change is accepted and gives an infinite score; a negative volume
  gives a negative one.
\<close>

theorem volatility_score_counterexample:
  "map_sum id (map volatility_score)
     (process example_builtins 7
        (JArr [JObj [(''id'', JStr ''x''), (''price_change_percentage_24h'', JFloat PInf),
                     (''total_volume'', JInt 1)]]))
   = Inr [PInf]
   \<and> \<not> is_finite PInf
   \<and> map_sum id (map volatility_score)
     (process example_builtins 7
        (JArr [JObj [(''id'', JStr ''y''), (''price_change_percentage_24h'', JFloat (Fin 2)),
                     (''total_volume'', JInt (- 1000000))]]))
   = Inr [Fin (- 2)]
   \<and> \<not> nonneg (Fin (- 2))"
proof -
  have small: "\<bar>of_int (- 1000000) :: real\<bar> \<le> dbl_max" "\<bar>2 * of_int (- 1000000) :: real\<bar> \<le> dbl_max"
    using dbl_max_big by simp_all
  have neg: "volatility (Fin 2) (- 1000000) = Fin (- 2)"
    using volatility_finite [OF small] by simp
  have inf: "volatility PInf 1 = PInf"
    using volatility_inf_input [of 1] dbl_max_big by simp
  show ?thesis
    by (simp add: process_def process_coin_def coin_fields_def then_try_def dict_get_def
        dict_get_none_def or_else_def symbol_field_def name_field_def str_or_def upper_def
        example_builtins_def float_of_int_small neg inf)
qed

text \<open>
  C10. In an accepted record, a \<open>symbol\<close> key present with value null gives the symbol
  \<open>NONE\<close> and a null \<open>name\<close> gives \<open>None\<close>; the defaults \<open>UNKNOWN\<close> and \<open>Unknown\<close> are
  taken exactly when the key is absent or its value has the empty string as its text.
\<close>

theorem null_symbol_and_name_are_stringified:
  assumes "process_coin B ts (JObj d) = Inr (Some row)"
  shows "symbol row =
           (case map_of d ''symbol'' of
              None \<Rightarrow> ''UNKNOWN''
            | Some v \<Rightarrow> if py_str B v = [] then ''UNKNOWN'' else upper (py_str B v))
         \<and> name row =
           (case map_of d ''name'' of
              None \<Rightarrow> ''Unknown''
            | Some v \<Rightarrow> if py_str B v = [] then ''Unknown'' else py_str B v)
         \<and> (map_of d ''symbol'' = Some JNull \<longrightarrow> symbol row = ''NONE'')
         \<and> (map_of d ''name'' = Some JNull \<longrightarrow> name row = ''None'')"
proof -
  from process_coin_fields [OF assms]
  have "symbol row = symbol_field B d" and "name row = name_field B d" by auto
  then show ?thesis
    by (simp add: symbol_field_cases name_field_cases upper_None)
qed

theorem null_symbol_and_name_are_stringified_witness:
  "process_coin example_builtins 7
     (JObj [(''id'', JStr ''btc''), (''symbol'', JNull), (''name'', JNull)])
   = Inr (Some \<lparr>coin_id = ''btc'', symbol = ''NONE'', name = ''None'',
                 current_price = Fin 0, market_cap = 0, total_volume = 0,
                 price_change_24h = Fin 0, market_cap_rank = 999,
                 volatility_score = Fin 0, extracted_at = 7\<rparr>)
   \<and> map_of [(''id'', JStr ''btc''), (''symbol'', JNull), (''name'', JNull)] ''symbol'' = Some JNull
   \<and> map_of [(''id'', JStr ''btc''), (''symbol'', JNull), (''name'', JNull)] ''name'' = Some JNull"
proof -
  have vol: "volatility (Fin 0) 0 = Fin 0"
    using volatility_nonneg [of 0 "Fin 0"] volatility_finite [of 0 0] dbl_max_pos by simp
  have run: "process_coin example_builtins 7
     (JObj [(''id'', JStr ''btc''), (''symbol'', JNull), (''name'', JNull)])
   = Inr (Some \<lparr>coin_id = ''btc'', symbol = ''NONE'', name = ''None'',
                 current_price = Fin 0, market_cap = 0, total_volume = 0,
                 price_change_24h = Fin 0, market_cap_rank = 999,
                 volatility_score = Fin 0, extracted_at = 7\<rparr>)"
    by (simp add: process_coin_def coin_fields_def then_try_def dict_get_def dict_get_none_def
        or_else_def symbol_field_def name_field_def str_or_def upper_None example_builtins_def
        float_of_int_small vol)
  from null_symbol_and_name_are_stringified [OF run] run show ?thesis by simp
qed

section \<open>Properties of the persistence gateway and the orchestrator\<close>

lemma unique_coins_keys:
  "fst ` set (unique_coins data seen) = fst ` set seen \<union> coin_id ` set data"
  by (induction data arbitrary: seen) (auto simp: map_of_eq_None_iff)

lemma unique_coins_distinct:
  "distinct (map fst seen) \<Longrightarrow> distinct (map fst (unique_coins data seen))"
  by (induction data arbitrary: seen) (auto simp: map_of_eq_None_iff)

lemma unique_coins_newest:
  assumes "newest_first data" and "(k, r) \<in> set (unique_coins data seen)"
  shows "(k, r) \<in> set seen \<or>
         (k \<notin> fst ` set seen \<and> coin_id r = k \<and> r \<in> set data
          \<and> (\<forall>s \<in> set data. coin_id s = k \<longrightarrow> extracted_at s \<le> extracted_at r))"
  using assms
proof (induction data arbitrary: seen)
  case Nil
  then show ?case by simp
next
  case (Cons c rest)
  have nf: "newest_first rest" and first: "\<forall>s \<in> set rest. extracted_at s \<le> extracted_at c"
    using Cons.prems(1) by (simp_all add: newest_first_def)
  show ?case
  proof (cases "map_of seen (coin_id c) = None")
    case True
    then have notin: "coin_id c \<notin> fst ` set seen" by (simp add: map_of_eq_None_iff)
    from Cons.prems(2) have "(k, r) \<in> set (unique_coins rest (seen @ [(coin_id c, c)]))"
      by (simp add: True)
    from Cons.IH [OF nf this] show ?thesis
      using notin first by force
  next
    case False
    then have isin: "coin_id c \<in> fst ` set seen" by (simp add: map_of_eq_None_iff)
    from Cons.prems(2) have "(k, r) \<in> set (unique_coins rest seen)" by (simp add: False)
    from Cons.IH [OF nf this] show ?thesis
      using isin by force
  qed
qed

lemma unique_coins_from_empty:
  assumes "newest_first data" and "(k, r) \<in> set (unique_coins data [])"
  shows "coin_id r = k \<and> r \<in> set data
         \<and> (\<forall>s \<in> set data. coin_id s = k \<longrightarrow> extracted_at s \<le> extracted_at r)"
  using unique_coins_newest [OF assms] by simp

lemma unique_coins_entries:
  "(k, r) \<in> set (unique_coins data seen) \<Longrightarrow> (k, r) \<in> set seen \<or> (coin_id r = k \<and> r \<in> set data)"
proof (induction data arbitrary: seen)
  case Nil
  then show ?case by simp
next
  case (Cons c rest)
  show ?case
  proof (cases "map_of seen (coin_id c) = None")
    case True
    from Cons.prems have "(k, r) \<in> set (unique_coins rest (seen @ [(coin_id c, c)]))"
      by (simp add: True)
    from Cons.IH [OF this] show ?thesis by auto
  next
    case False
    from Cons.prems have "(k, r) \<in> set (unique_coins rest seen)" by (simp add: False)
    from Cons.IH [OF this] show ?thesis by auto
  qed
qed

lemma unique_coins_key_is_id: "map fst (unique_coins data []) = map coin_id (map snd (unique_coins data []))"
proof -
  have "\<forall>p \<in> set (unique_coins data []). fst p = coin_id (snd p)"
    using unique_coins_entries [of _ _ data "[]"] by auto
  then show ?thesis by simp
qed

lemma get_coins_distinct: "distinct (map coin_id (get_coins result))"
proof (cases result)
  case None
  then show ?thesis by (simp add: get_coins_def)
next
  case (Some data)
  have "distinct (map fst (unique_coins data []))"
    by (rule unique_coins_distinct) simp
  then show ?thesis
    using Some unique_coins_key_is_id [of data] by (simp add: get_coins_def)
qed

lemma get_coins_ids: "coin_id ` set (get_coins (Some data)) = coin_id ` set data"
proof -
  have "coin_id ` set (get_coins (Some data)) = set (map coin_id (map snd (unique_coins data [])))"
    by (simp add: get_coins_def image_image)
  also have "\<dots> = fst ` set (unique_coins data [])"
    using unique_coins_key_is_id [of data] by (metis list.set_map)
  also have "\<dots> = coin_id ` set data"
    by (simp add: unique_coins_keys)
  finally show ?thesis .
qed

lemma get_coins_newest:
  assumes "newest_first data" and "r \<in> set (get_coins (Some data))"
  shows "r \<in> set data \<and> (\<forall>s \<in> set data. coin_id s = coin_id r \<longrightarrow> extracted_at s \<le> extracted_at r)"
proof -
  from assms(2) obtain k where "(k, r) \<in> set (unique_coins data [])"
    by (auto simp: get_coins_def)
  from unique_coins_from_empty [OF assms(1) this] show ?thesis by auto
qed



lemma run_summary_raises:
  assumes "truthy (get_top_coins response)"
    and "process B now (get_top_coins response) = Inr rows" and "rows \<noteq> []"
    and "ex t rows = Committed t'"
    and "get_coins (sel t') \<noteq> []" and "sr (get_coins (sel t'))"
  shows "run B now response ex sel sr t
           = (False, t', [Extracting, Transforming, Loading, Summarizing])"
  using assms by (simp add: run_def save_coins_def Let_def)

subsection \<open>Claims about the persistence gateway and the orchestrator\<close>

text \<open>
  C9. Whatever rows the datastore holds, when it answers the query with them ordered by
  \<open>extracted_at\<close> descending, \<open>get_coins\<close> returns no two rows with the same \<open>coin_id\<close>,
  returns a row for every stored identifier, and the row returned for an identifier is a
  stored row whose \<open>extracted_at\<close> is the newest among the rows with that identifier.
  When the query raises, \<open>get_coins\<close> returns the empty list.
\<close>

theorem get_coins_unique_newest:
  assumes "newest_first data"
  shows "distinct (map coin_id (get_coins (Some data)))
         \<and> coin_id ` set (get_coins (Some data)) = coin_id ` set data
         \<and> (\<forall>r \<in> set (get_coins (Some data)).
               r \<in> set data
               \<and> (\<forall>s \<in> set data. coin_id s = coin_id r \<longrightarrow> extracted_at s \<le> extracted_at r))
         \<and> get_coins None = []"
proof -
  have "get_coins None = []" by (simp add: get_coins_def)
  then show ?thesis
    using get_coins_distinct [of "Some data"] get_coins_ids [of data] get_coins_newest [OF assms]
    by blast
qed

theorem get_coins_unique_newest_witness:
  "newest_first [example_row ''btc'' 3, example_row ''eth'' 2, example_row ''btc'' 1]
   \<and> get_coins (Some [example_row ''btc'' 3, example_row ''eth'' 2, example_row ''btc'' 1])
       = [example_row ''btc'' 3, example_row ''eth'' 2]
   \<and> distinct (map coin_id (get_coins (Some [example_row ''btc'' 3, example_row ''eth'' 2, example_row ''btc'' 1])))"
proof -
  have nf: "newest_first [example_row ''btc'' 3, example_row ''eth'' 2, example_row ''btc'' 1]"
    by (simp add: newest_first_def example_row_def)
  have ev: "get_coins (Some [example_row ''btc'' 3, example_row ''eth'' 2, example_row ''btc'' 1])
       = [example_row ''btc'' 3, example_row ''eth'' 2]"
    by (simp add: get_coins_def example_row_def)
  from get_coins_unique_newest [OF nf] nf ev show ?thesis by simp
qed



section \<open>Properties of the resampler and the historical cache\<close>

lemma bucket_width_pos: "0 < bucket_width days"
  by (simp add: bucket_width_def)

lemma bins_ascending:
  assumes "0 < w"
  shows "sorted_wrt (<) (bins w samples)"
proof -
  have s: "sorted_wrt (<) [i..j]" for i j :: int
    by (simp add: strict_sorted_iff)
  have "sorted_wrt (\<lambda>x y. x * w < y * w) [i..j]" for i j :: int
    by (rule sorted_wrt_mono_rel [OF _ s]) (simp add: assms)
  then show ?thesis
    by (simp add: bins_def sorted_wrt_map)
qed

lemma bins_member:
  assumes "0 < w" and "s \<in> set samples"
  shows "bucket_of w (fst s) \<in> set (bins w samples)"
proof -
  let ?ts = "set (map fst samples)"
  have ne: "samples \<noteq> []" using assms(2) by auto
  have fin: "finite ?ts" by simp
  have mem: "fst s \<in> ?ts" using assms(2) by simp
  have "Min ?ts \<le> fst s" "fst s \<le> Max ?ts"
    using fin mem by (simp_all only: Min_le Max_ge)
  then have "Min ?ts div w \<le> fst s div w" "fst s div w \<le> Max ?ts div w"
    using assms(1) by (simp_all add: zdiv_mono1)
  then have "fst s div w \<in> set [Min ?ts div w .. Max ?ts div w]" by simp
  then show ?thesis
    using ne unfolding bins_def bucket_of_def by (simp only: if_False set_map image_eqI)
qed

lemma bins_iff:
  "b \<in> set (bins w samples) \<longleftrightarrow>
     samples \<noteq> [] \<and> (\<exists>q. b = q * w \<and> Min (set (map fst samples)) div w \<le> q
                           \<and> q \<le> Max (set (map fst samples)) div w)"
  by (auto simp: bins_def)

lemma ohlc_bin_time: "ohlc_bin b ps = Some r \<Longrightarrow> bar_time r = b"
  by (auto simp: ohlc_bin_def split: if_splits)

lemma ohlc_bin_fields:
  "ohlc_bin b ps = Some r \<Longrightarrow>
     ps \<noteq> [] \<and> bar_time r = b \<and> bar_open r = Some (hd ps) \<and> bar_close r = Some (last ps)
     \<and> bar_high r = Some (Max (set ps)) \<and> bar_low r = Some (Min (set ps))
     \<and> bar_volume r = None"
  by (cases "ps = []") (auto simp: ohlc_bin_def)

lemma resample_ohlc_times:
  "map bar_time (resample_ohlc w samples) = filter (\<lambda>b. in_bucket w b samples \<noteq> []) (bins w samples)"
proof -
  have "map bar_time (List.map_filter (\<lambda>b. ohlc_bin b (f b)) bs) = filter (\<lambda>b. f b \<noteq> []) bs"
    for f :: "int \<Rightarrow> real list" and bs
    by (induction bs) (auto simp: List.map_filter_simps ohlc_bin_def)
  then show ?thesis by (simp add: resample_ohlc_def)
qed

lemma resample_ohlc_ascending:
  "0 < w \<Longrightarrow> sorted_wrt (<) (map bar_time (resample_ohlc w samples))"
  by (simp add: resample_ohlc_times sorted_wrt_filter bins_ascending)

lemma resample_ohlc_bar:
  assumes "r \<in> set (resample_ohlc w samples)"
  shows "bar_time r \<in> set (bins w samples)
         \<and> in_bucket w (bar_time r) samples \<noteq> []
         \<and> bar_open r = Some (hd (in_bucket w (bar_time r) samples))
         \<and> bar_close r = Some (last (in_bucket w (bar_time r) samples))
         \<and> bar_high r = Some (Max (set (in_bucket w (bar_time r) samples)))
         \<and> bar_low r = Some (Min (set (in_bucket w (bar_time r) samples)))
         \<and> bar_volume r = None"
proof -
  from assms obtain b where b: "b \<in> set (bins w samples)" "ohlc_bin b (in_bucket w b samples) = Some r"
    by (auto simp: resample_ohlc_def List.map_filter_def)
  from ohlc_bin_fields [OF b(2)] b(1) show ?thesis by simp
qed

lemma in_bucket_sample:
  "s \<in> set samples \<Longrightarrow> snd s \<in> set (in_bucket w (bucket_of w (fst s)) samples)"
  by (auto simp: in_bucket_def)

lemma resample_ohlc_covers:
  assumes "0 < w" and "s \<in> set samples"
  shows "bucket_of w (fst s) \<in> bar_time ` set (resample_ohlc w samples)"
proof -
  have "in_bucket w (bucket_of w (fst s)) samples \<noteq> []"
    using in_bucket_sample [OF assms(2), of w] by auto
  then have "bucket_of w (fst s) \<in> set (map bar_time (resample_ohlc w samples))"
    using bins_member [OF assms] by (simp only: resample_ohlc_times set_filter mem_Collect_eq simp_thms)
  then show ?thesis by simp
qed

lemma resample_sum_lookup:
  "map_of (resample_sum w vs) b =
     (if b \<in> set (bins w vs) then Some (sum_list (in_bucket w b vs)) else None)"
  by (simp add: resample_sum_def map_of_map_restrict restrict_map_def)

lemma in_bucket_set:
  "set (in_bucket w b samples) = snd ` {s \<in> set samples. bucket_of w (fst s) = b}"
  by (auto simp: in_bucket_def)

lemma in_bucket_sorted_input:
  "sorted (map fst samples) \<Longrightarrow>
     in_bucket w b samples = map snd (filter (\<lambda>s. bucket_of w (fst s) = b) samples)"
  by (simp add: in_bucket_def sort_key_id_if_sorted)

lemma bucket_of_bounds:
  "0 < w \<Longrightarrow> bucket_of w t = b \<longleftrightarrow> b mod w = 0 \<and> b \<le> t \<and> t < b + w"
proof
  assume w: "0 < w" and "bucket_of w t = b"
  then have b: "b = t div w * w" by (simp add: bucket_of_def)
  have e: "t div w * w + t mod w = t" by simp
  have "0 \<le> t mod w" "t mod w < w" using w by simp_all
  then have "t div w * w \<le> t" "t < t div w * w + w" using e by linarith+
  then show "b mod w = 0 \<and> b \<le> t \<and> t < b + w" using b by simp
next
  assume w: "0 < w" and h: "b mod w = 0 \<and> b \<le> t \<and> t < b + w"
  then have "w dvd b" by (simp add: dvd_eq_mod_eq_0)
  then obtain q where q: "b = q * w" by (auto simp: dvd_def mult.commute)
  have "t div w = q"
    by (rule int_div_pos_eq [of t w q "t - q * w"]) (use h q in auto)
  then show "bucket_of w t = b" using q by (simp add: bucket_of_def)
qed

lemma example_resample: "process_historical_data example_chart 5 = Inr example_bars"
  by code_simp

lemma example_first_fetch:
  "get_historical_data server_up 1000 ''bitcoin'' 5 empty_state =
     (Some example_bars,
      \<lparr>cache = [cache_key ''bitcoin'' 5 \<mapsto> \<lparr>entry_time = Some 1000, entry_data = example_bars\<rparr>],
       requests = [(''bitcoin'', 5)]\<rparr>)"
  by (simp add: get_historical_data_def check_cache_def empty_state_def server_up_def
      example_resample)

lemma in_bucket_interval:
  assumes "0 < w" and "b mod w = 0"
  shows "in_bucket w b samples
           = map snd (filter (\<lambda>s. b \<le> fst s \<and> fst s < b + w) (sort_key fst samples))"
proof -
  have "(bucket_of w t = b) = (b \<le> t \<and> t < b + w)" for t
    using bucket_of_bounds [OF assms(1), of t b] assms(2) by simp
  then show ?thesis by (simp add: in_bucket_def)
qed

lemma sum_filter_insort:
  "sum_list (map g (filter P (insort_key f x xs))) = sum_list (map g (filter P (x # xs)))"
  for g :: "'a \<Rightarrow> real"
  by (induction xs) auto

lemma sum_filter_sort:
  "sum_list (map g (filter P (sort_key f xs))) = sum_list (map g (filter P xs))"
  for g :: "'a \<Rightarrow> real"
  by (induction xs) (simp_all add: sum_filter_insort)

lemma in_bucket_sum:
  assumes "0 < w" and "b mod w = 0"
  shows "sum_list (in_bucket w b samples)
           = sum_list (map snd (filter (\<lambda>s. b \<le> fst s \<and> fst s < b + w) samples))"
  by (simp add: in_bucket_interval [OF assms] sum_filter_sort)

lemma bins_multiple: "b \<in> set (bins w samples) \<Longrightarrow> b mod w = 0"
  by (auto simp: bins_iff)

lemma bins_span:
  assumes "0 < w" and "b mod w = 0"
  shows "b \<in> set (bins w samples) \<longleftrightarrow>
           samples \<noteq> [] \<and> Min (set (map fst samples)) div w \<le> b div w
           \<and> b div w \<le> Max (set (map fst samples)) div w"
proof -
  have b: "b = b div w * w" using assms(2) by (simp add: dvd_eq_mod_eq_0 [symmetric])
  have "(\<exists>q. b = q * w \<and> lo \<le> q \<and> q \<le> hi) = (lo \<le> b div w \<and> b div w \<le> hi)" for lo hi
  proof
    assume "\<exists>q. b = q * w \<and> lo \<le> q \<and> q \<le> hi"
    then obtain q where "b = q * w" "lo \<le> q" "q \<le> hi" by blast
    then show "lo \<le> b div w \<and> b div w \<le> hi" using assms(1) by simp
  next
    assume "lo \<le> b div w \<and> b div w \<le> hi"
    then show "\<exists>q. b = q * w \<and> lo \<le> q \<and> q \<le> hi" using b by blast
  qed
  then show ?thesis by (simp only: bins_iff)
qed

lemma assign_volume_nonempty:
  "ohlc \<noteq> [] \<Longrightarrow> assign_volume totals ohlc = map (set_volume totals) ohlc"
  by (simp add: assign_volume_def)

lemma resample_ohlc_nonempty:
  assumes "0 < w" and "samples \<noteq> []"
  shows "resample_ohlc w samples \<noteq> []"
proof -
  from assms(2) obtain s where "s \<in> set samples" by (cases samples) auto
  from resample_ohlc_covers [OF assms(1) this] show ?thesis by auto
qed

subsection \<open>Claims about the market data client\<close>

text \<open>
  C6. A fetch for a key whose cached entry is younger than the TTL returns the cached
  bars and leaves the state as it was: no request is sent. In particular, after a fetch
  that went to the server and succeeded at \<open>t0\<close>, a second fetch for the same coin and
  window at \<open>now\<close> with \<open>now - t0\<close> below the TTL returns the same bars and sends nothing,
  whatever the server would answer. A fetch that fails (result \<open>None\<close>) leaves the cache
  as it was, and the cache changes only by the entry for the key, written after the
  request and the resampling have both succeeded.
\<close>

theorem cache_hit_and_failed_fetch:
  "(cache st (cache_key coin days) = Some e \<and> entry_time e = Some start \<and> now - start < cache_ttl \<longrightarrow>
      get_historical_data http now coin days st = (Some (entry_data e), st))
   \<and> (get_historical_data http start coin days st = (Some bars, after) \<and> requests after \<noteq> requests st
        \<and> now - start < cache_ttl \<longrightarrow>
      get_historical_data http' now coin days after = (Some bars, after))
   \<and> (fst (get_historical_data http now coin days st) = None \<longrightarrow>
      cache (snd (get_historical_data http now coin days st)) = cache st)
   \<and> (cache (snd (get_historical_data http now coin days st)) \<noteq> cache st \<longrightarrow>
      (\<exists>data ohlc. http coin days = Some data \<and> process_historical_data data days = Inr ohlc
         \<and> fst (get_historical_data http now coin days st) = Some ohlc
         \<and> cache (snd (get_historical_data http now coin days st))
             = (cache st)(cache_key coin days \<mapsto> \<lparr>entry_time = Some now, entry_data = ohlc\<rparr>)))"
proof (intro conjI impI)
  assume "cache st (cache_key coin days) = Some e \<and> entry_time e = Some start \<and> now - start < cache_ttl"
  then show "get_historical_data http now coin days st = (Some (entry_data e), st)"
    by (simp add: get_historical_data_def check_cache_def)
next
  assume a: "get_historical_data http start coin days st = (Some bars, after) \<and> requests after \<noteq> requests st
        \<and> now - start < cache_ttl"
  then have "cache after (cache_key coin days) = Some \<lparr>entry_time = Some start, entry_data = bars\<rparr>"
    by (auto simp: get_historical_data_def Let_def split: sum.splits option.splits)
  with a show "get_historical_data http' now coin days after = (Some bars, after)"
    by (simp add: get_historical_data_def check_cache_def)
next
  assume "fst (get_historical_data http now coin days st) = None"
  then show "cache (snd (get_historical_data http now coin days st)) = cache st"
    by (auto simp: get_historical_data_def Let_def split: sum.splits option.splits)
next
  assume "cache (snd (get_historical_data http now coin days st)) \<noteq> cache st"
  then show "\<exists>data ohlc. http coin days = Some data \<and> process_historical_data data days = Inr ohlc
         \<and> fst (get_historical_data http now coin days st) = Some ohlc
         \<and> cache (snd (get_historical_data http now coin days st))
             = (cache st)(cache_key coin days \<mapsto> \<lparr>entry_time = Some now, entry_data = ohlc\<rparr>)"
    by (auto simp: get_historical_data_def Let_def split: sum.splits option.splits)
qed

theorem cache_hit_and_failed_fetch_witness:
  "get_historical_data server_up 1000 ''bitcoin'' 5 empty_state =
     (Some example_bars,
      \<lparr>cache = [cache_key ''bitcoin'' 5 \<mapsto> \<lparr>entry_time = Some 1000, entry_data = example_bars\<rparr>],
       requests = [(''bitcoin'', 5)]\<rparr>)
   \<and> get_historical_data server_down 240001000 ''bitcoin'' 5
        \<lparr>cache = [cache_key ''bitcoin'' 5 \<mapsto> \<lparr>entry_time = Some 1000, entry_data = example_bars\<rparr>],
         requests = [(''bitcoin'', 5)]\<rparr>
     = (Some example_bars,
        \<lparr>cache = [cache_key ''bitcoin'' 5 \<mapsto> \<lparr>entry_time = Some 1000, entry_data = example_bars\<rparr>],
         requests = [(''bitcoin'', 5)]\<rparr>)
   \<and> fst (get_historical_data server_garbled 900001000 ''bitcoin'' 5
        \<lparr>cache = [cache_key ''bitcoin'' 5 \<mapsto> \<lparr>entry_time = Some 1000, entry_data = example_bars\<rparr>],
         requests = [(''bitcoin'', 5)]\<rparr>) = None
   \<and> cache (snd (get_historical_data server_garbled 900001000 ''bitcoin'' 5
        \<lparr>cache = [cache_key ''bitcoin'' 5 \<mapsto> \<lparr>entry_time = Some 1000, entry_data = example_bars\<rparr>],
         requests = [(''bitcoin'', 5)]\<rparr>))
     = [cache_key ''bitcoin'' 5 \<mapsto> \<lparr>entry_time = Some 1000, entry_data = example_bars\<rparr>]"
proof -
  let ?st1 = "\<lparr>cache = [cache_key ''bitcoin'' 5 \<mapsto> \<lparr>entry_time = Some 1000, entry_data = example_bars\<rparr>],
       requests = [(''bitcoin'', 5)]\<rparr>"
  have fresh: "(240001000::int) - 1000 < cache_ttl" by (simp add: cache_ttl_def)
  have sent: "requests ?st1 \<noteq> requests empty_state" by (simp add: empty_state_def)
  have failed: "fst (get_historical_data server_garbled 900001000 ''bitcoin'' 5 ?st1) = None"
    by (simp add: get_historical_data_def check_cache_def cache_ttl_def server_garbled_def
        process_historical_data_def)
  from cache_hit_and_failed_fetch [where st = empty_state and http = server_up and start = 1000
      and coin = "''bitcoin''" and days = 5 and bars = example_bars and after = ?st1
      and now = 240001000 and http' = server_down]
    example_first_fetch fresh sent
  have hit: "get_historical_data server_down 240001000 ''bitcoin'' 5 ?st1 = (Some example_bars, ?st1)"
    by blast
  from cache_hit_and_failed_fetch [where st = ?st1 and http = server_garbled and now = 900001000
      and coin = "''bitcoin''" and days = 5] failed
  have kept: "cache (snd (get_historical_data server_garbled 900001000 ''bitcoin'' 5 ?st1)) = cache ?st1"
    by blast
  from example_first_fetch hit failed kept show ?thesis by simp
qed

text \<open>
  With at least one price sample the resampler does what is asked of it. The buckets are
  1 hour wide when \<open>windowDays \<le> 7\<close>, 4 hours when \<open>7 < windowDays \<le> 30\<close> and 1 day
  otherwise. There is one bar for every bucket that holds a price sample and none for
  the others, and the bars are strictly ascending in timestamp. In a bar, open is the
  first price of the bucket in time order (samples with the same timestamp in the order
  given), close the last, high and low the maximum and the minimum. The volume is the
  sum of the volume samples of the bucket when the bucket lies in the span from the
  first to the last bucket of the volume series, so whenever it holds a volume sample,
  and it is absent otherwise.
\<close>

lemma resample_bars:
  assumes "prices data = Some ps" and "ps \<noteq> []" and "total_volumes data = Some vs"
  shows "\<exists>bars. process_historical_data data days = Inr bars
           \<and> bucket_width days
               = (if days \<le> 7 then 3600000 else if days \<le> 30 then 14400000 else 86400000)
           \<and> sorted_wrt (<) (map bar_time bars)
           \<and> (\<forall>s \<in> set ps. \<exists>r \<in> set bars.
                 bar_time r \<le> fst s \<and> fst s < bar_time r + bucket_width days)
           \<and> (\<forall>r \<in> set bars.
                 bar_time r mod bucket_width days = 0
                 \<and> (\<exists>S. S = map snd (filter (\<lambda>s. bar_time r \<le> fst s
                                                   \<and> fst s < bar_time r + bucket_width days)
                                           (sort_key fst ps))
                        \<and> S \<noteq> []
                        \<and> bar_open r = Some (hd S) \<and> bar_close r = Some (last S)
                        \<and> bar_high r = Some (Max (set S)) \<and> bar_low r = Some (Min (set S)))
                 \<and> bar_volume r
                     = (if vs \<noteq> []
                           \<and> Min (set (map fst vs)) div bucket_width days
                               \<le> bar_time r div bucket_width days
                           \<and> bar_time r div bucket_width days
                               \<le> Max (set (map fst vs)) div bucket_width days
                        then Some (sum_list (map snd (filter
                               (\<lambda>v. bar_time r \<le> fst v \<and> fst v < bar_time r + bucket_width days)
                               vs)))
                        else None)
                 \<and> ((\<exists>v \<in> set vs. bar_time r \<le> fst v \<and> fst v < bar_time r + bucket_width days)
                      \<longrightarrow> bar_volume r \<noteq> None))"
proof -
  let ?w = "bucket_width days"
  let ?tot = "resample_sum ?w vs"
  let ?ohlc = "resample_ohlc ?w ps"
  let ?bars = "map (set_volume ?tot) ?ohlc"
  have w: "0 < ?w" by (rule bucket_width_pos)
  have run: "process_historical_data data days = Inr ?bars"
    using assms resample_ohlc_nonempty [OF w assms(2)]
    by (simp add: process_historical_data_def assign_volume_nonempty)
  have policy: "?w = (if days \<le> 7 then 3600000 else if days \<le> 30 then 14400000 else 86400000)"
    by (simp add: bucket_width_def)
  have times: "map bar_time ?bars = map bar_time ?ohlc"
    by (simp add: set_volume_def)
  have asc: "sorted_wrt (<) (map bar_time ?bars)"
    by (simp only: times resample_ohlc_ascending [OF w])
  have cover: "\<forall>s \<in> set ps. \<exists>r \<in> set ?bars. bar_time r \<le> fst s \<and> fst s < bar_time r + ?w"
  proof
    fix s assume "s \<in> set ps"
    from resample_ohlc_covers [OF w this]
    have "bucket_of ?w (fst s) \<in> set (map bar_time ?ohlc)" by simp
    then have "bucket_of ?w (fst s) \<in> set (map bar_time ?bars)" by (simp only: times)
    then obtain r where r: "r \<in> set ?bars" "bar_time r = bucket_of ?w (fst s)"
      unfolding set_map by (metis (no_types, lifting) imageE)
    from bucket_of_bounds [OF w, of "fst s" "bar_time r"] r(2)
    have "bar_time r \<le> fst s \<and> fst s < bar_time r + ?w" by simp
    with r(1) show "\<exists>r \<in> set ?bars. bar_time r \<le> fst s \<and> fst s < bar_time r + ?w" by blast
  qed
  have each: "bar_time r mod ?w = 0
                 \<and> (\<exists>S. S = map snd (filter (\<lambda>s. bar_time r \<le> fst s \<and> fst s < bar_time r + ?w)
                                           (sort_key fst ps))
                        \<and> S \<noteq> []
                        \<and> bar_open r = Some (hd S) \<and> bar_close r = Some (last S)
                        \<and> bar_high r = Some (Max (set S)) \<and> bar_low r = Some (Min (set S)))
                 \<and> bar_volume r
                     = (if vs \<noteq> []
                           \<and> Min (set (map fst vs)) div ?w \<le> bar_time r div ?w
                           \<and> bar_time r div ?w \<le> Max (set (map fst vs)) div ?w
                        then Some (sum_list (map snd (filter
                               (\<lambda>v. bar_time r \<le> fst v \<and> fst v < bar_time r + ?w) vs)))
                        else None)
                 \<and> ((\<exists>v \<in> set vs. bar_time r \<le> fst v \<and> fst v < bar_time r + ?w)
                      \<longrightarrow> bar_volume r \<noteq> None)"
    if "r \<in> set ?bars" for r
  proof -
    from that obtain r0 where r0: "r0 \<in> set ?ohlc" "r = set_volume ?tot r0"
      by auto
    have same: "bar_time r0 = bar_time r" "bar_open r0 = bar_open r" "bar_close r0 = bar_close r"
      "bar_high r0 = bar_high r" "bar_low r0 = bar_low r"
      and look: "bar_volume r = map_of ?tot (bar_time r)"
      using r0(2) by (simp_all add: set_volume_def)
    note b = resample_ohlc_bar [OF r0(1), unfolded same]
    have m: "bar_time r mod ?w = 0" using b bins_multiple by blast
    note iv = in_bucket_interval [OF w m, of ps]
    have ohlc: "\<exists>S. S = map snd (filter (\<lambda>s. bar_time r \<le> fst s \<and> fst s < bar_time r + ?w)
                                           (sort_key fst ps))
                        \<and> S \<noteq> []
                        \<and> bar_open r = Some (hd S) \<and> bar_close r = Some (last S)
                        \<and> bar_high r = Some (Max (set S)) \<and> bar_low r = Some (Min (set S))"
      using b unfolding iv by blast
    have vol: "bar_volume r
                     = (if vs \<noteq> []
                           \<and> Min (set (map fst vs)) div ?w \<le> bar_time r div ?w
                           \<and> bar_time r div ?w \<le> Max (set (map fst vs)) div ?w
                        then Some (sum_list (map snd (filter
                               (\<lambda>v. bar_time r \<le> fst v \<and> fst v < bar_time r + ?w) vs)))
                        else None)"
      using look by (simp only: resample_sum_lookup bins_span [OF w m] in_bucket_sum [OF w m])
    have some: "bar_volume r \<noteq> None"
      if "\<exists>v \<in> set vs. bar_time r \<le> fst v \<and> fst v < bar_time r + ?w"
    proof -
      from that obtain v where v: "v \<in> set vs" "bar_time r \<le> fst v \<and> fst v < bar_time r + ?w"
        by blast
      then have "bucket_of ?w (fst v) = bar_time r"
        using bucket_of_bounds [OF w, of "fst v" "bar_time r"] m by simp
      then have "bar_time r \<in> set (bins ?w vs)"
        using bins_member [OF w v(1)] by simp
      then show ?thesis using look by (simp add: resample_sum_lookup)
    qed
    from m ohlc vol some show ?thesis by blast
  qed
  show ?thesis
    apply (rule exI [of _ ?bars])
    apply (intro conjI)
        apply (rule run)
       apply (rule policy)
      apply (rule asc)
     apply (rule cover)
    apply (rule ballI)
    apply (erule each)
    done
qed

text \<open>
  C7. The claim fails on a payload with no price sample and a non-empty volume series.
  The frame of the price bars is empty after \<open>dropna\<close>, and the assignment of the volume
  column gives it the index of the volume sums: the result holds one bar for every
  bucket of the volume series, none of which has a price sample, with open, high, low
  and close undefined, instead of no bar.
\<close>

theorem resample_keeps_buckets_without_prices:
  "process_historical_data \<lparr>prices = Some [], total_volumes = Some [(0, 10), (3600000, 20)]\<rparr> 1
     = Inr [\<lparr>bar_time = 0, bar_open = None, bar_high = None, bar_low = None, bar_close = None,
              bar_volume = Some 10\<rparr>,
            \<lparr>bar_time = 3600000, bar_open = None, bar_high = None, bar_low = None,
              bar_close = None, bar_volume = Some 20\<rparr>]"
  by code_simp

end
